theory Spec2Isabelle
  imports Complex_Main "HOL-Library.Sublist"
begin

section \<open>String primitives of the host language\<close>

text \<open>
  The service functions of \<^verbatim>\<open>src/services/video.services.ts\<close> build paths with
  \<^verbatim>\<open>String.prototype.split\<close>, \<^verbatim>\<open>Array.prototype.slice\<close>, \<^verbatim>\<open>pop\<close>, \<^verbatim>\<open>join\<close> and
  string concatenation. They are modelled on \<open>string\<close> with the behaviour of the language:
  splitting on a one-character separator always yields at least one segment, \<^verbatim>\<open>slice\<close>
  counts negative indices from the end, \<^verbatim>\<open>pop\<close> of an empty array is \<^verbatim>\<open>undefined\<close>, and
  \<^verbatim>\<open>undefined\<close> is rendered as the text \<^verbatim>\<open>undefined\<close> when it is concatenated.
\<close>

fun split :: "char \<Rightarrow> string \<Rightarrow> string list" where
  "split c [] = [[]]"
| "split c (x # xs) =
     (if x = c then [] # split c xs
      else (case split c xs of [] \<Rightarrow> [[x]] | s # ss \<Rightarrow> (x # s) # ss))"

fun join :: "string \<Rightarrow> string list \<Rightarrow> string" where
  "join sep [] = []"
| "join sep [s] = s"
| "join sep (s # t # ss) = s @ sep @ join sep (t # ss)"

definition slice :: "int \<Rightarrow> int option \<Rightarrow> 'a list \<Rightarrow> 'a list" where
  "slice start end xs =
     (let n = int (length xs);
          k = (if start < 0 then max (n + start) 0 else min start n);
          e = (case end of
                 None \<Rightarrow> n
               | Some j \<Rightarrow> if j < 0 then max (n + j) 0 else min j n)
      in take (nat (e - k)) (drop (nat k) xs))"

definition pop :: "'a list \<Rightarrow> 'a option" where
  "pop xs = (if xs = [] then None else Some (last xs))"

definition to_string :: "string option \<Rightarrow> string" where
  "to_string v = (case v of None \<Rightarrow> ''undefined'' | Some s \<Rightarrow> s)"

definition array_to_string :: "string list \<Rightarrow> string" where
  "array_to_string xs = join '','' xs"

text \<open>
  Numbers that are concatenated into a path (\<^verbatim>\<open>Date.now()\<close>, a resolution) are integers;
  their text is the decimal numeral.
\<close>

definition digit_char :: "nat \<Rightarrow> char" where
  "digit_char d = char_of (48 + d)"

fun show_nat :: "nat \<Rightarrow> string" where
  "show_nat n = (if n < 10 then [digit_char n] else show_nat (n div 10) @ [digit_char (n mod 10)])"

definition show_int :: "int \<Rightarrow> string" where
  "show_int i = (if i < 0 then CHR ''-'' # show_nat (nat (- i)) else show_nat (nat i))"

declare show_nat.simps [simp del]

section \<open>Path namespace\<close>

text \<open>
  The three path components, as the source computes them:
  \<^verbatim>\<open>p.split("/").slice(0, -1).join("/")\<close> (the directory),
  \<^verbatim>\<open>p.split("/").pop()\<close> (the file name) and \<^verbatim>\<open>p.split(".").pop()\<close> (the extension).
\<close>

definition dirname :: "string \<Rightarrow> string" where
  "dirname p = join ''/'' (slice 0 (Some (- 1)) (split CHR ''/'' p))"

definition basename :: "string \<Rightarrow> string option" where
  "basename p = pop (split CHR ''/'' p)"

definition extname :: "string \<Rightarrow> string option" where
  "extname p = pop (split CHR ''.'' p)"

text \<open>
  \<^verbatim>\<open>updateVideoPath(oldPath, newName)\<close>; the reading of \<^verbatim>\<open>Date.now()\<close> is the first
  argument.
\<close>

definition updateVideoPath :: "nat \<Rightarrow> string \<Rightarrow> string \<Rightarrow> string" where
  "updateVideoPath now oldPath newName =
     join ''/'' (slice 0 (Some (- 1)) (split CHR ''/'' oldPath))
     @ ''/''
     @ show_nat now
     @ ''_''
     @ array_to_string (slice (- 1) None (split CHR ''.'' newName))
     @ ''.''
     @ to_string (pop (split CHR ''.'' oldPath))"


text \<open>
  \<^verbatim>\<open>generateVideoPath(videoFolder, req)\<close> reads \<^verbatim>\<open>req.files?.source\<close> and
  \<^verbatim>\<open>req.body.name\<close>. Without an uploaded file, \<^verbatim>\<open>file\<close> is \<^verbatim>\<open>undefined\<close> and reading
  \<^verbatim>\<open>file.name\<close> throws a \<^verbatim>\<open>TypeError\<close>; an absent \<^verbatim>\<open>req.body.name\<close> is interpolated as
  the text \<^verbatim>\<open>undefined\<close>.
\<close>

datatype error = TypeError | FsError string | DbError string | EngineError string

record UploadedFile =
  file_name :: string

record Request =
  files_source :: "UploadedFile option"
  body_name :: "string option"

definition generateVideoPath :: "nat \<Rightarrow> string \<Rightarrow> Request \<Rightarrow> error + string" where
  "generateVideoPath now videoFolder req =
     (case files_source req of
        None \<Rightarrow> Inl TypeError
      | Some file \<Rightarrow>
          Inr (videoFolder @ ''/'' @ show_nat now @ ''_'' @ to_string (body_name req) @ ''.''
               @ to_string (pop (split CHR ''.'' (file_name file)))))"

text \<open>
  The resolutions are the literal type \<^verbatim>\<open>1080 | 720 | 480 | 360 | 240 | 144\<close>. A video
  object carries its identifier, the path of the primary file and the map from resolutions
  to the paths of the derived files; the other columns (owner, duration) take no part in
  the functions below.
\<close>

datatype resolution = R1080 | R720 | R480 | R360 | R240 | R144

fun resolution_value :: "resolution \<Rightarrow> int" where
  "resolution_value R1080 = 1080"
| "resolution_value R720 = 720"
| "resolution_value R480 = 480"
| "resolution_value R360 = 360"
| "resolution_value R240 = 240"
| "resolution_value R144 = 144"

record Video =
  video_id :: string
  source :: string
  format :: "resolution \<Rightarrow> string option"

definition no_formats :: "resolution \<Rightarrow> string option" where
  "no_formats r = None"

definition getVideoName :: "Video \<Rightarrow> string option" where
  "getVideoName video =
     (case pop (split CHR ''/'' (source video)) of
        None \<Rightarrow> None
      | Some f \<Rightarrow> Some (join ''_'' (slice 1 None (split CHR ''_'' f))))"

definition generateEncodedVideoFolderPath :: "Video \<Rightarrow> int \<Rightarrow> string" where
  "generateEncodedVideoFolderPath video resolution =
     (let outputPath = join ''/'' (slice 0 (Some (- 1)) (split CHR ''/'' (source video)))
      in outputPath @ ''/'' @ video_id video @ ''/'' @ show_int resolution @ ''p/'')"

definition generateEncodedVideoPath :: "nat \<Rightarrow> string \<Rightarrow> string \<Rightarrow> string" where
  "generateEncodedVideoPath now folder fileName = folder @ show_nat now @ ''_'' @ fileName"

section \<open>Querying videos\<close>

text \<open>
  The file exists in two versions that differ in \<^verbatim>\<open>getVideos\<close>: the earlier one passes
  \<^verbatim>\<open>limit: perPage, offset: perPage * (page - 1)\<close>, the later one
  \<^verbatim>\<open>limit: perPage || 5, offset: perPage || 5 * (page - 1)\<close>. In the language \<^verbatim>\<open>*\<close> binds
  tighter than \<^verbatim>\<open>||\<close>, and \<^verbatim>\<open>a || b\<close> is \<^verbatim>\<open>a\<close> unless \<^verbatim>\<open>a\<close> is falsy (zero for a number,
  the empty text for a string). Numbers are taken as integers.
\<close>

record Fields =
  name :: string
  user :: int
  duration :: int
  page :: int
  perPage :: int

record Filter =
  source_iLike :: "string option"
  user_eq :: "int option"
  duration_gt :: "int option"

record Query =
  query_where :: Filter
  query_limit :: int
  query_offset :: int

definition or_number :: "int \<Rightarrow> int \<Rightarrow> int" where
  "or_number a b = (if a \<noteq> 0 then a else b)"

definition build_filter :: "Fields \<Rightarrow> Filter" where
  "build_filter flds =
     \<lparr> source_iLike = (if name flds \<noteq> [] then Some (''%'' @ name flds @ ''%'') else None),
       user_eq = (if user flds \<noteq> 0 then Some (user flds) else None),
       duration_gt = (if duration flds \<noteq> 0 then Some (duration flds) else None) \<rparr>"

definition getVideos_v1 :: "Fields \<Rightarrow> Query" where
  "getVideos_v1 flds =
     \<lparr> query_where = build_filter flds,
       query_limit = perPage flds,
       query_offset = perPage flds * (page flds - 1) \<rparr>"

definition getVideos_v2 :: "Fields \<Rightarrow> Query" where
  "getVideos_v2 flds =
     \<lparr> query_where = build_filter flds,
       query_limit = or_number (perPage flds) 5,
       query_offset = or_number (perPage flds) (5 * (page flds - 1)) \<rparr>"

section \<open>Encoding\<close>

text \<open>
  \<^verbatim>\<open>encodeVideo\<close> configures one engine command and returns a promise. The engine then
  emits events; the handlers registered on the command log each event, the \<^verbatim>\<open>error\<close>
  handler rejects the promise and the \<^verbatim>\<open>end\<close> handler resolves it. A promise settles once:
  resolving or rejecting a settled promise changes nothing. The result of awaiting the
  promise is \<open>None\<close> while it is pending.
\<close>

datatype engine_event = Progress rat | End | Error string

datatype promise = Pending | Resolved | Rejected string

datatype level = TRACE | INFO | ERROR

record command =
  command_input :: string
  command_output :: string
  command_size :: string

fun is_progress :: "engine_event \<Rightarrow> bool" where
  "is_progress (Progress percent) = True"
| "is_progress End = False"
| "is_progress (Error err) = False"

definition settle :: "promise \<Rightarrow> promise \<Rightarrow> promise" where
  "settle p q = (if p = Pending then q else p)"

fun on_event :: "promise \<times> (level \<times> string) list \<Rightarrow> engine_event \<Rightarrow> promise \<times> (level \<times> string) list" where
  "on_event (p, logged) (Error err) = (settle p (Rejected err), logged @ [(ERROR, err)])"
| "on_event (p, logged) End = (settle p Resolved, logged @ [(INFO, ''Finished processing'')])"
| "on_event (p, logged) (Progress percent) =
     (p, logged @ [(TRACE, ''Processing: '' @ show_int \<lceil>percent\<rceil> @ ''% done'')])"

definition await :: "promise \<Rightarrow> (error + unit) option" where
  "await p = (case p of Pending \<Rightarrow> None | Resolved \<Rightarrow> Some (Inr ()) | Rejected err \<Rightarrow> Some (Inl (EngineError err)))"

definition encode_command :: "string \<Rightarrow> string \<Rightarrow> resolution \<Rightarrow> command" where
  "encode_command videoPath outputPath resolution =
     \<lparr> command_input = videoPath,
       command_output = outputPath,
       command_size = ''?x'' @ show_int (resolution_value resolution) \<rparr>"

definition encodeVideo ::
  "string \<Rightarrow> string \<Rightarrow> resolution \<Rightarrow> engine_event list \<Rightarrow> command \<times> (error + unit) option \<times> (level \<times> string) list" where
  "encodeVideo videoPath outputPath resolution events =
     (let (p, logged) = foldl on_event (Pending, []) events
      in (encode_command videoPath outputPath resolution, await p, logged))"

section \<open>Renaming\<close>

text \<open>
  \<^verbatim>\<open>updateVideoName\<close> mutates the video object it is given, moves files and saves the
  record. The state it works on holds the video object in memory, the file system, the
  record updates written so far, the number of calls of \<^verbatim>\<open>Date.now()\<close> made so far and the
  moves carried out so far. The clock (the reading of each call of \<^verbatim>\<open>Date.now()\<close>), the
  file system's \<^verbatim>\<open>rename\<close> and the record's \<^verbatim>\<open>save\<close> are parameters; a failing \<^verbatim>\<open>await\<close>
  ends the function with the error.

  \<^verbatim>\<open>Object.keys\<close> lists the keys of \<^verbatim>\<open>video.format\<close>, integer keys in ascending order; the
  loop skips a key whose value is falsy (absent or the empty text).
\<close>

record 'fs world =
  mem :: Video
  disk :: 'fs
  saved :: "Video list"
  ticks :: nat
  moved :: "(string \<times> string) list"

definition key_order :: "resolution list" where
  "key_order = [R144, R240, R360, R480, R720, R1080]"

definition object_keys :: "(resolution \<Rightarrow> string option) \<Rightarrow> resolution list" where
  "object_keys fmt = filter (\<lambda>r. fmt r \<noteq> None) key_order"

definition truthy :: "string option \<Rightarrow> bool" where
  "truthy v = (case v of None \<Rightarrow> False | Some s \<Rightarrow> s \<noteq> [])"

fun rename_formats ::
  "(nat \<Rightarrow> nat) \<Rightarrow> ('fs \<Rightarrow> string \<Rightarrow> string \<Rightarrow> error + 'fs) \<Rightarrow> string \<Rightarrow> resolution list
     \<Rightarrow> 'fs world \<Rightarrow> error option \<times> 'fs world" where
  "rename_formats now rename newName [] w = (None, w)"
| "rename_formats now rename newName (k # ks) w =
     (case format (mem w) k of
        None \<Rightarrow> rename_formats now rename newName ks w
      | Some oldPath \<Rightarrow>
          if oldPath = [] then rename_formats now rename newName ks w
          else
            let newPath = updateVideoPath (now (ticks w)) oldPath newName;
                w1 = w\<lparr> mem := (mem w)\<lparr> format := (format (mem w))(k \<mapsto> newPath) \<rparr>,
                        ticks := ticks w + 1 \<rparr>
            in case rename (disk w1) oldPath newPath of
                 Inl e \<Rightarrow> (Some e, w1)
               | Inr d \<Rightarrow>
                   rename_formats now rename newName ks
                     (w1\<lparr> disk := d, moved := moved w1 @ [(oldPath, newPath)] \<rparr>))"

definition updateVideoName ::
  "(nat \<Rightarrow> nat) \<Rightarrow> ('fs \<Rightarrow> string \<Rightarrow> string \<Rightarrow> error + 'fs) \<Rightarrow> (Video \<Rightarrow> error option)
     \<Rightarrow> 'fs world \<Rightarrow> string \<Rightarrow> (error + Video) \<times> 'fs world" where
  "updateVideoName now rename save w newName =
     (let oldPath = source (mem w);
          newPath = updateVideoPath (now (ticks w)) oldPath newName;
          w1 = w\<lparr> mem := (mem w)\<lparr> source := updateVideoPath (now (ticks w + 1)) oldPath newName \<rparr>,
                  ticks := ticks w + 2 \<rparr>
      in case rename (disk w1) oldPath newPath of
           Inl e \<Rightarrow> (Inl e, w1)
         | Inr d \<Rightarrow>
             (case rename_formats now rename newName (object_keys (format (mem w1)))
                     (w1\<lparr> disk := d, moved := moved w1 @ [(oldPath, newPath)] \<rparr>) of
                (Some e, w2) \<Rightarrow> (Inl e, w2)
              | (None, w2) \<Rightarrow>
                  (case save (mem w2) of
                     Some e \<Rightarrow> (Inl e, w2)
                   | None \<Rightarrow> (Inr (mem w2), w2\<lparr> saved := saved w2 @ [mem w2] \<rparr>))))"

text \<open>
  Replaying a list of moves with the file system's \<^verbatim>\<open>rename\<close>, first move first; it
  fails at the first move that fails. It is used to state that the moves
  \<^verbatim>\<open>updateVideoName\<close> has carried out are the renames that produced the final file system.
\<close>

fun apply_moves ::
  "('fs \<Rightarrow> string \<Rightarrow> string \<Rightarrow> error + 'fs) \<Rightarrow> 'fs \<Rightarrow> (string \<times> string) list \<Rightarrow> error + 'fs" where
  "apply_moves rename d [] = Inr d"
| "apply_moves rename d ((oldPath, newPath) # ms) =
     (case rename d oldPath newPath of
        Inl e \<Rightarrow> Inl e
      | Inr d' \<Rightarrow> apply_moves rename d' ms)"

text \<open>
  A file system for concrete runs: the list of the files that exist; \<^verbatim>\<open>rename\<close> fails
  when the file to move does not exist.
\<close>

definition rename_file :: "string list \<Rightarrow> string \<Rightarrow> string \<Rightarrow> error + string list" where
  "rename_file files oldPath newPath =
     (if oldPath \<in> set files then Inr (newPath # remove1 oldPath files)
      else Inl (FsError ''ENOENT''))"

text \<open>A clock and a record store for concrete runs: readings 1000, 1001, ...; saving succeeds.\<close>

definition example_clock :: "nat \<Rightarrow> nat" where
  "example_clock k = 1000 + k"

definition save_ok :: "Video \<Rightarrow> error option" where
  "save_ok v = None"

text \<open>
  A video for concrete runs: derived files at 720 and 480, and every file on disk.
\<close>

definition example_formats :: "resolution \<Rightarrow> string option" where
  "example_formats r =
     (if r = R720 then Some ''/data/9/720p/50_clip.mp4''
      else if r = R480 then Some ''/data/9/480p/60_clip.mp4''
      else None)"

definition example_world :: "string list world" where
  "example_world =
     \<lparr> mem = \<lparr> video_id = ''9'', source = ''/data/42_clip.mp4'', format = example_formats \<rparr>,
       disk = [''/data/42_clip.mp4'', ''/data/9/720p/50_clip.mp4'', ''/data/9/480p/60_clip.mp4''],
       saved = [],
       ticks = 0,
       moved = [] \<rparr>"


section \<open>Deleting\<close>

text \<open>
  \<^verbatim>\<open>deleteVideo\<close> starts \<^verbatim>\<open>fs.rm\<close> and \<^verbatim>\<open>fs.rmdir\<close> with a callback each and calls
  \<^verbatim>\<open>video.destroy().then()\<close>; it returns before any of them completes. Each callback logs
  the error it is given. The promise of \<^verbatim>\<open>destroy\<close> has no rejection handler: a rejection
  is left unhandled. The parameters give what each operation answers (\<open>None\<close> for success).
\<close>

datatype removal = Rm string | Rmdir string bool | Destroy string

record deletion =
  attempted :: "removal list"
  logged_errors :: "error list"
  unhandled_rejections :: "error list"
  thrown :: "error option"

definition deleteVideo ::
  "(string \<Rightarrow> error option) \<Rightarrow> (string \<Rightarrow> error option) \<Rightarrow> (string \<Rightarrow> error option)
     \<Rightarrow> Video \<Rightarrow> deletion" where
  "deleteVideo rm rmdir destroy video =
     (let dir = join ''/'' (slice 0 (Some (- 1)) (split CHR ''/'' (source video))) @ ''/'' @ video_id video
      in \<lparr> attempted = [Rm (source video), Rmdir dir True, Destroy (video_id video)],
           logged_errors =
             (case rm (source video) of None \<Rightarrow> [] | Some err \<Rightarrow> [err])
             @ (case rmdir dir of None \<Rightarrow> [] | Some err \<Rightarrow> [err]),
           unhandled_rejections = (case destroy (video_id video) of None \<Rightarrow> [] | Some err \<Rightarrow> [err]),
           thrown = None \<rparr>)"

text \<open>Answers for concrete runs: an operation that succeeds, one that fails with an error.\<close>

definition op_ok :: "string \<Rightarrow> error option" where
  "op_ok target = None"

definition op_fail :: "error \<Rightarrow> string \<Rightarrow> error option" where
  "op_fail err target = Some err"

section \<open>Facts about the string primitives\<close>

lemma split_not_Nil [simp]: "split c s \<noteq> []"
  by (induction s) (auto split: list.splits)

lemma split_Cons:
  "split c (x # xs) =
     (if x = c then [] # split c xs else (x # hd (split c xs)) # tl (split c xs))"
  by (cases "split c xs") simp_all

declare split.simps(2) [simp del]

lemma slice_butlast: "slice 0 (Some (- 1)) xs = butlast xs"
  by (cases xs rule: rev_cases) (auto simp: slice_def Let_def)

lemma slice_tl: "slice 1 None xs = tl xs"
  by (cases xs) (auto simp: slice_def Let_def)

lemma slice_last: "xs \<noteq> [] \<Longrightarrow> slice (- 1) None xs = [last xs]"
  by (cases xs rule: rev_cases) (auto simp: slice_def Let_def)

lemma pop_split: "pop (split c s) = Some (last (split c s))"
  by (simp add: pop_def)

lemma split_append: "split c (a @ c # b) = split c a @ split c b"
  by (induction a) (auto simp: split_Cons)
lemma split_no_sep: "c \<notin> set a \<Longrightarrow> split c a = [a]"
  by (induction a) (auto simp: split_Cons)
lemma join_split: "join [c] (split c s) = s"
proof (induction s)
  case Nil
  show ?case by simp
next
  case (Cons x s)
  obtain h t where S: "split c s = h # t"
    by (cases "split c s") simp_all
  with Cons show ?case
    by (cases t) (auto simp: split_Cons)
qed
lemma split_segments: "seg \<in> set (split c s) \<Longrightarrow> c \<notin> set seg"
proof (induction s arbitrary: seg)
  case Nil
  then show ?case by simp
next
  case (Cons x s)
  obtain h t where S: "split c s = h # t"
    by (cases "split c s") simp_all
  with Cons show ?case
    by (auto simp: split_Cons split: if_splits)
qed
lemma join_snoc: "xs \<noteq> [] \<Longrightarrow> join sep (xs @ [y]) = join sep xs @ sep @ y"
  by (induction sep xs rule: join.induct) auto

section \<open>Facts about decimal numerals\<close>

lemma digit_char_code: "d < 10 \<Longrightarrow> of_char (digit_char d) = 48 + d"
  by (simp add: digit_char_def)

lemma show_nat_not_Nil: "show_nat n \<noteq> []"
  by (subst show_nat.simps) simp

lemma show_nat_digits: "c \<in> set (show_nat n) \<Longrightarrow> 48 \<le> (of_char c :: nat) \<and> (of_char c :: nat) < 58"
proof (induction n rule: show_nat.induct)
  case (1 n)
  show ?case
  proof (cases "n < 10")
    case True
    with "1.prems" have "c = digit_char n" by (subst (asm) show_nat.simps) simp
    with True show ?thesis by (simp add: digit_char_code)
  next
    case False
    with "1.prems" have "c \<in> set (show_nat (n div 10)) \<or> c = digit_char (n mod 10)"
      by (subst (asm) show_nat.simps) auto
    then show ?thesis
    proof
      assume "c \<in> set (show_nat (n div 10))"
      with False "1.IH" show ?thesis by simp
    next
      assume "c = digit_char (n mod 10)"
      then show ?thesis by (simp add: digit_char_code)
    qed
  qed
qed

lemma show_nat_no_slash: "CHR ''/'' \<notin> set (show_nat n)"
  using show_nat_digits [of "CHR ''/''" n] by auto
lemma show_nat_no_dot: "CHR ''.'' \<notin> set (show_nat n)"
  using show_nat_digits [of "CHR ''.''" n] by auto
lemma show_nat_no_underscore: "CHR ''_'' \<notin> set (show_nat n)"
  using show_nat_digits [of "CHR ''_''" n] by auto
lemma show_nat_no_minus: "CHR ''-'' \<notin> set (show_nat n)"
  using show_nat_digits [of "CHR ''-''" n] by auto

lemma digit_char_inj:
  assumes "a < 10" and "b < 10" and "digit_char a = digit_char b"
  shows "a = b"
proof -
  have "(of_char (digit_char a) :: nat) = of_char (digit_char b)"
    by (simp only: assms(3))
  then have "48 + a = 48 + b"
    by (simp only: digit_char_code [OF assms(1)] digit_char_code [OF assms(2)])
  then show ?thesis by simp
qed

lemma show_nat_inj: "show_nat n = show_nat m \<Longrightarrow> n = m"
proof (induction n arbitrary: m rule: show_nat.induct)
  case (1 n)
  show ?case
  proof (cases "n < 10")
    case n: True
    show ?thesis
    proof (cases "m < 10")
      case True
      with n "1.prems" have "digit_char n = digit_char m"
        by (simp add: show_nat.simps [of n] show_nat.simps [of m])
      with n True show ?thesis by (rule digit_char_inj)
    next
      case False
      with n "1.prems" have "show_nat (m div 10) = []"
        by (simp add: show_nat.simps [of n] show_nat.simps [of m])
      then show ?thesis by (simp add: show_nat_not_Nil)
    qed
  next
    case n: False
    show ?thesis
    proof (cases "m < 10")
      case True
      with n "1.prems" have "show_nat (n div 10) = []"
        by (simp add: show_nat.simps [of n] show_nat.simps [of m])
      then show ?thesis by (simp add: show_nat_not_Nil)
    next
      case False
      with n "1.prems" have eq: "show_nat (n div 10) = show_nat (m div 10)"
        and d: "digit_char (n mod 10) = digit_char (m mod 10)"
        by (simp_all add: show_nat.simps [of n] show_nat.simps [of m])
      from n eq have "n div 10 = m div 10" by (rule "1.IH")
      moreover from d have "n mod 10 = m mod 10" by (intro digit_char_inj) simp_all
      ultimately show ?thesis by (metis div_mult_mod_eq)
    qed
  qed
qed

lemma show_int_inj: "show_int i = show_int j \<Longrightarrow> i = j"
proof -
  assume eq: "show_int i = show_int j"
  have hd_nat: "\<And>k. hd (show_nat k) \<noteq> CHR ''-''"
    using show_nat_no_minus show_nat_not_Nil by (metis hd_in_set)
  show ?thesis
  proof (cases "i < 0")
    case i: True
    show ?thesis
    proof (cases "j < 0")
      case True
      with i eq have "show_nat (nat (- i)) = show_nat (nat (- j))" by (simp add: show_int_def)
      then have "nat (- i) = nat (- j)" by (rule show_nat_inj)
      with i True show ?thesis by simp
    next
      case False
      with i eq have "hd (show_nat (nat j)) = CHR ''-''" by (simp add: show_int_def) (metis list.sel(1))
      with hd_nat show ?thesis by simp
    qed
  next
    case i: False
    show ?thesis
    proof (cases "j < 0")
      case True
      with i eq have "hd (show_nat (nat i)) = CHR ''-''" by (simp add: show_int_def) 
      with hd_nat show ?thesis by simp
    next
      case False
      with i eq have "show_nat (nat i) = show_nat (nat j)" by (simp add: show_int_def)
      then have "nat i = nat j" by (rule show_nat_inj)
      with i False show ?thesis by simp
    qed
  qed
qed

section \<open>Facts about paths\<close>

lemma last_split_append: "last (split c (a @ c # b)) = last (split c b)"
  by (simp add: split_append)

lemma butlast_split_append: "butlast (split c (a @ c # b)) = split c a @ butlast (split c b)"
  by (simp add: split_append butlast_append)

lemma last_split_no_sep: "c \<notin> set (last (split c s))"
  using split_segments [of "last (split c s)" c s] by simp

lemma split_sep_length: "c \<in> set s \<Longrightarrow> butlast (split c s) \<noteq> []"
proof -
  assume "c \<in> set s"
  then obtain a b where "s = a @ c # b" by (auto simp: in_set_conv_decomp)
  then show ?thesis by (simp add: butlast_split_append)
qed

lemma dirname_append: "CHR ''/'' \<notin> set r \<Longrightarrow> dirname (d @ CHR ''/'' # r) = d"
  by (simp add: dirname_def slice_butlast butlast_split_append split_no_sep join_split)

lemma basename_append: "CHR ''/'' \<notin> set r \<Longrightarrow> basename (d @ CHR ''/'' # r) = Some r"
  by (simp add: basename_def pop_split last_split_append split_no_sep)

lemma extname_append: "CHR ''.'' \<notin> set e \<Longrightarrow> extname (x @ CHR ''.'' # e) = Some e"
  by (simp add: extname_def pop_split last_split_append split_no_sep)

lemma dirname_basename:
  assumes "CHR ''/'' \<in> set p"
  shows "p = dirname p @ ''/'' @ last (split CHR ''/'' p)"
proof -
  let ?S = "split CHR ''/'' p"
  have ne: "butlast ?S \<noteq> []" using assms by (rule split_sep_length)
  have "join ''/'' (butlast ?S @ [last ?S]) = join ''/'' ?S" by simp
  then have whole: "join ''/'' (butlast ?S @ [last ?S]) = p" by (simp only: join_split)
  have "join ''/'' (butlast ?S @ [last ?S]) = join ''/'' (butlast ?S) @ ''/'' @ last ?S"
    using ne by (rule join_snoc)
  with whole have "join ''/'' (butlast ?S) @ ''/'' @ last ?S = p" by (simp only:)
  then show ?thesis unfolding dirname_def slice_butlast by (rule sym)
qed

lemma updateVideoPath_eq:
  "updateVideoPath now oldPath newName =
     dirname oldPath @ CHR ''/'' #
       (show_nat now @ ''_'' @ last (split CHR ''.'' newName)) @ CHR ''.'' # last (split CHR ''.'' oldPath)"
  by (simp add: updateVideoPath_def dirname_def slice_last array_to_string_def pop_split to_string_def)

section \<open>The renamed path\<close>

text \<open>
  Claim C1, as amended. \<^verbatim>\<open>updateVideoPath\<close> is a function of the clock reading and its two
  arguments only. When the text after the last dot of \<open>oldPath\<close> contains no slash (the file
  name of \<open>oldPath\<close> has an extension) and the text after the last dot of \<open>newName\<close> contains
  no slash, the result has the directory of \<open>oldPath\<close> and the extension of \<open>oldPath\<close>, and its
  file name is the timestamp, an underscore, the text after the last dot of \<open>newName\<close> (all of
  \<open>newName\<close> when it has no dot), a dot and the extension.
\<close>

theorem updateVideoPath_components:
  assumes old: "CHR ''/'' \<notin> set (last (split CHR ''.'' oldPath))"
    and new: "CHR ''/'' \<notin> set (last (split CHR ''.'' newName))"
  shows "dirname (updateVideoPath now oldPath newName) = dirname oldPath
       \<and> extname (updateVideoPath now oldPath newName) = extname oldPath
       \<and> basename (updateVideoPath now oldPath newName) =
           Some (show_nat now @ ''_'' @ last (split CHR ''.'' newName) @ ''.''
                 @ last (split CHR ''.'' oldPath))"
proof -
  let ?ext = "last (split CHR ''.'' oldPath)"
  let ?file = "show_nat now @ ''_'' @ last (split CHR ''.'' newName) @ ''.'' @ ?ext"
  have path: "updateVideoPath now oldPath newName = dirname oldPath @ CHR ''/'' # ?file"
    by (simp add: updateVideoPath_eq)
  have noslash: "CHR ''/'' \<notin> set ?file"
    using old new by (simp add: show_nat_no_slash)
  have dir: "dirname (updateVideoPath now oldPath newName) = dirname oldPath"
    unfolding path using noslash by (rule dirname_append)
  have base: "basename (updateVideoPath now oldPath newName) = Some ?file"
    unfolding path using noslash by (rule basename_append)
  have "updateVideoPath now oldPath newName =
          (dirname oldPath @ CHR ''/'' # show_nat now @ ''_'' @ last (split CHR ''.'' newName))
          @ CHR ''.'' # ?ext"
    by (simp add: updateVideoPath_eq)
  then have ext: "extname (updateVideoPath now oldPath newName) = Some ?ext"
    by (simp only: extname_append [OF last_split_no_sep])
  from dir ext base show ?thesis
    by (simp add: extname_def pop_split)
qed

text \<open>The theorem at \<^verbatim>\<open>/data/42_clip.mp4\<close> renamed to \<^verbatim>\<open>holiday\<close>.\<close>

theorem updateVideoPath_components_witness:
  "dirname (updateVideoPath 7 ''/data/42_clip.mp4'' ''holiday'') = ''/data''
   \<and> extname (updateVideoPath 7 ''/data/42_clip.mp4'' ''holiday'') = Some ''mp4''
   \<and> basename (updateVideoPath 7 ''/data/42_clip.mp4'' ''holiday'') = Some ''7_holiday.mp4''"
proof -
  have old: "CHR ''/'' \<notin> set (last (split CHR ''.'' ''/data/42_clip.mp4''))" by code_simp
  have new: "CHR ''/'' \<notin> set (last (split CHR ''.'' ''holiday''))" by code_simp
  have d: "dirname ''/data/42_clip.mp4'' = ''/data''" by code_simp
  have e: "extname ''/data/42_clip.mp4'' = Some ''mp4''" by code_simp
  have b: "show_nat 7 @ ''_'' @ last (split CHR ''.'' ''holiday'') @ ''.''
                 @ last (split CHR ''.'' ''/data/42_clip.mp4'') = ''7_holiday.mp4''" by code_simp
  from updateVideoPath_components [OF old new, of 7] show ?thesis
    unfolding d e b .
qed

text \<open>
  The claim as first stated fails: the new name is cut at its last dot, not at its last
  slash (\<^verbatim>\<open>holiday.v2\<close> gives the file name \<^verbatim>\<open>7_v2.mp4\<close>); a slash in the new name, or an
  old path without an extension, changes the directory.
\<close>

theorem updateVideoPath_counterexample:
  "basename (updateVideoPath 7 ''/data/42_clip.mp4'' ''holiday.v2'')
     \<noteq> Some (show_nat 7 @ ''_'' @ last (split CHR ''/'' ''holiday.v2'') @ ''.mp4'')
   \<and> dirname (updateVideoPath 7 ''/data/42_clip.mp4'' ''a/b'') \<noteq> dirname ''/data/42_clip.mp4''
   \<and> dirname (updateVideoPath 7 ''/data/clip'' ''holiday'') \<noteq> dirname ''/data/clip''"
  by code_simp

section \<open>The primary path\<close>

text \<open>
  Claim C6, as amended. For a request that carries an uploaded file and a declared name,
  \<^verbatim>\<open>generateVideoPath\<close> returns a path whose extension is the extension of the uploaded
  file's own name, whatever the declared name is. When the declared name and that
  extension contain no slash, the directory of the path is the folder and its file name
  is the timestamp, an underscore, the declared name, a dot and the extension.
\<close>

theorem generateVideoPath_components:
  assumes up: "files_source req = Some file"
    and nm: "body_name req = Some n"
  shows "\<exists>p. generateVideoPath now folder req = Inr p
           \<and> extname p = extname (file_name file)
           \<and> (CHR ''/'' \<notin> set n \<and> CHR ''/'' \<notin> set (last (split CHR ''.'' (file_name file))) \<longrightarrow>
                dirname p = folder
                \<and> basename p =
                    Some (show_nat now @ ''_'' @ n @ ''.'' @ last (split CHR ''.'' (file_name file))))"
proof -
  let ?ext = "last (split CHR ''.'' (file_name file))"
  let ?f = "show_nat now @ ''_'' @ n @ ''.'' @ ?ext"
  let ?p = "folder @ CHR ''/'' # ?f"
  have run: "generateVideoPath now folder req = Inr ?p"
    using up nm by (simp add: generateVideoPath_def to_string_def pop_split)
  have "?p = (folder @ ''/'' @ show_nat now @ ''_'' @ n) @ CHR ''.'' # ?ext" by simp
  then have "extname ?p = Some ?ext"
    by (simp only: extname_append [OF last_split_no_sep])
  then have ext: "extname ?p = extname (file_name file)"
    by (simp add: extname_def pop_split)
  have place: "CHR ''/'' \<notin> set n \<and> CHR ''/'' \<notin> set ?ext \<longrightarrow>
                dirname ?p = folder \<and> basename ?p = Some ?f"
  proof
    assume "CHR ''/'' \<notin> set n \<and> CHR ''/'' \<notin> set ?ext"
    then have noslash: "CHR ''/'' \<notin> set ?f"
      by (simp add: show_nat_no_slash)
    from noslash have "dirname ?p = folder" by (rule dirname_append)
    moreover from noslash have "basename ?p = Some ?f" by (rule basename_append)
    ultimately show "dirname ?p = folder \<and> basename ?p = Some ?f" by simp
  qed
  from run ext place show ?thesis by blast
qed

text \<open>
  The theorem for the upload \<^verbatim>\<open>clip.mp4\<close> declared as \<^verbatim>\<open>holiday.mov\<close> into \<^verbatim>\<open>/up\<close>: the
  extension is \<^verbatim>\<open>mp4\<close>, not \<^verbatim>\<open>mov\<close>, the directory is \<^verbatim>\<open>/up\<close>.
\<close>

theorem generateVideoPath_components_witness:
  "generateVideoPath 7 ''/up'' \<lparr>files_source = Some \<lparr>file_name = ''clip.mp4''\<rparr>, body_name = Some ''holiday.mov''\<rparr>
     = Inr ''/up/7_holiday.mov.mp4''
   \<and> extname ''/up/7_holiday.mov.mp4'' = Some ''mp4''
   \<and> extname ''holiday.mov'' = Some ''mov''
   \<and> dirname ''/up/7_holiday.mov.mp4'' = ''/up''
   \<and> basename ''/up/7_holiday.mov.mp4'' = Some ''7_holiday.mov.mp4''"
proof -
  let ?req = "\<lparr>files_source = Some \<lparr>file_name = ''clip.mp4''\<rparr>, body_name = Some ''holiday.mov''\<rparr>"
  have ev: "generateVideoPath 7 ''/up'' ?req = Inr ''/up/7_holiday.mov.mp4''" by code_simp
  have e: "extname (file_name \<lparr>file_name = ''clip.mp4''\<rparr>) = Some ''mp4''" by code_simp
  have m: "extname ''holiday.mov'' = Some ''mov''" by code_simp
  have n_ok: "CHR ''/'' \<notin> set ''holiday.mov''" by simp
  have ext_ok: "CHR ''/'' \<notin> set (last (split CHR ''.'' (file_name \<lparr>file_name = ''clip.mp4''\<rparr>)))"
    by code_simp
  have b: "show_nat 7 @ ''_'' @ ''holiday.mov'' @ ''.''
             @ last (split CHR ''.'' (file_name \<lparr>file_name = ''clip.mp4''\<rparr>)) = ''7_holiday.mov.mp4''"
    by code_simp
  from generateVideoPath_components [of ?req "\<lparr>file_name = ''clip.mp4''\<rparr>" "''holiday.mov''" 7 "''/up''"]
    n_ok ext_ok
  obtain p where "generateVideoPath 7 ''/up'' ?req = Inr p"
    and "extname p = extname (file_name \<lparr>file_name = ''clip.mp4''\<rparr>)"
    and "dirname p = ''/up''"
    and "basename p = Some (show_nat 7 @ ''_'' @ ''holiday.mov'' @ ''.''
             @ last (split CHR ''.'' (file_name \<lparr>file_name = ''clip.mp4''\<rparr>)))"
    by force
  with ev e b have "extname ''/up/7_holiday.mov.mp4'' = Some ''mp4''
      \<and> dirname ''/up/7_holiday.mov.mp4'' = ''/up''
      \<and> basename ''/up/7_holiday.mov.mp4'' = Some ''7_holiday.mov.mp4''"
    by simp
  with ev m show ?thesis by simp
qed

text \<open>
  The claim as first stated fails for a declared name with a slash: for \<^verbatim>\<open>2024/trip\<close> the
  path is \<^verbatim>\<open>/up/7_2024/trip.mp4\<close>, whose directory is not the folder and whose file name
  holds neither the timestamp nor the whole declared name.
\<close>

theorem generateVideoPath_slash_counterexample:
  "generateVideoPath 7 ''/up'' \<lparr>files_source = Some \<lparr>file_name = ''clip.mp4''\<rparr>, body_name = Some ''2024/trip''\<rparr>
     = Inr ''/up/7_2024/trip.mp4''
   \<and> dirname ''/up/7_2024/trip.mp4'' = ''/up/7_2024''
   \<and> basename ''/up/7_2024/trip.mp4'' = Some ''trip.mp4''"
  by code_simp

text \<open>
  Claim C5, as amended. When the name of the uploaded file contains no dot, the extension
  that \<^verbatim>\<open>generateVideoPath\<close> extracts is the whole file name, and the path ends with a dot
  followed by that file name.
\<close>

theorem generateVideoPath_no_dot:
  assumes up: "files_source req = Some file"
    and nodot: "CHR ''.'' \<notin> set (file_name file)"
  shows "extname (file_name file) = Some (file_name file)
       \<and> generateVideoPath now folder req =
           Inr (folder @ ''/'' @ show_nat now @ ''_'' @ to_string (body_name req) @ ''.'' @ file_name file)"
  using up nodot
  by (simp add: generateVideoPath_def extname_def pop_def split_no_sep to_string_def)

text \<open>The theorem for the upload \<^verbatim>\<open>clip\<close>.\<close>

theorem generateVideoPath_no_dot_witness:
  "extname ''clip'' = Some ''clip''
   \<and> generateVideoPath 7 ''/up'' \<lparr>files_source = Some \<lparr>file_name = ''clip''\<rparr>, body_name = Some ''video''\<rparr>
       = Inr ''/up/7_video.clip''"
proof -
  have d: "CHR ''.'' \<notin> set ''clip''" by simp
  have s: "show_nat 7 = ''7''" by code_simp
  from generateVideoPath_no_dot [of "\<lparr>files_source = Some \<lparr>file_name = ''clip''\<rparr>, body_name = Some ''video''\<rparr>" "\<lparr>file_name = ''clip''\<rparr>" 7 "''/up''"] d
  show ?thesis by (simp add: s to_string_def)
qed

text \<open>
  The claim as first stated fails there: the extension extracted from \<^verbatim>\<open>clip\<close> is not
  empty, and the path does not end with a dot.
\<close>

theorem generateVideoPath_no_dot_counterexample:
  "extname ''clip'' \<noteq> Some ''''
   \<and> generateVideoPath 7 ''/up'' \<lparr>files_source = Some \<lparr>file_name = ''clip''\<rparr>, body_name = Some ''video''\<rparr>
       = Inr ''/up/7_video.clip''
   \<and> last ''/up/7_video.clip'' \<noteq> CHR ''.''"
  by code_simp

section \<open>The folder of a derived file\<close>

text \<open>
  Claim C7. \<^verbatim>\<open>generateEncodedVideoFolderPath\<close> returns the directory of the video's source,
  a slash, the identifier, a slash, the resolution, and \<^verbatim>\<open>p/\<close>. The folder lies under the
  video's own directory (directory of the source, slash, identifier, slash), two different
  resolutions give two different folders, and the directory of the source is the source
  without its last slash and file name.
\<close>

theorem generateEncodedVideoFolderPath_distinct:
  "generateEncodedVideoFolderPath video r =
     dirname (source video) @ ''/'' @ video_id video @ ''/'' @ show_int r @ ''p/''
   \<and> prefix (dirname (source video) @ ''/'' @ video_id video @ ''/'') (generateEncodedVideoFolderPath video r)
   \<and> (r1 \<noteq> r2 \<longrightarrow> generateEncodedVideoFolderPath video r1 \<noteq> generateEncodedVideoFolderPath video r2)
   \<and> (CHR ''/'' \<in> set (source video) \<longrightarrow>
        source video = dirname (source video) @ ''/'' @ last (split CHR ''/'' (source video)))"
proof -
  have eq: "\<And>r. generateEncodedVideoFolderPath video r =
     dirname (source video) @ ''/'' @ video_id video @ ''/'' @ show_int r @ ''p/''"
    by (simp add: generateEncodedVideoFolderPath_def dirname_def Let_def)
  have pre: "prefix (dirname (source video) @ ''/'' @ video_id video @ ''/'') (generateEncodedVideoFolderPath video r)"
    unfolding eq by simp
  have inj: "r1 \<noteq> r2 \<longrightarrow> generateEncodedVideoFolderPath video r1 \<noteq> generateEncodedVideoFolderPath video r2"
    unfolding eq using show_int_inj [of r1 r2] by auto
  have dir: "CHR ''/'' \<in> set (source video) \<longrightarrow>
        source video = dirname (source video) @ ''/'' @ last (split CHR ''/'' (source video))"
    using dirname_basename [of "source video"] by blast
  from eq [of r] pre inj dir show ?thesis by blast
qed

text \<open>The theorem for the resolutions 720 and 480 of the video 9 at \<^verbatim>\<open>/data/42_clip.mp4\<close>.\<close>

theorem generateEncodedVideoFolderPath_distinct_witness:
  "generateEncodedVideoFolderPath \<lparr>video_id = ''9'', source = ''/data/42_clip.mp4'', format = no_formats\<rparr> 720 = ''/data/9/720p/''
   \<and> generateEncodedVideoFolderPath \<lparr>video_id = ''9'', source = ''/data/42_clip.mp4'', format = no_formats\<rparr> 480 = ''/data/9/480p/''
   \<and> generateEncodedVideoFolderPath \<lparr>video_id = ''9'', source = ''/data/42_clip.mp4'', format = no_formats\<rparr> 720
       \<noteq> generateEncodedVideoFolderPath \<lparr>video_id = ''9'', source = ''/data/42_clip.mp4'', format = no_formats\<rparr> 480
   \<and> ''/data/42_clip.mp4'' = dirname ''/data/42_clip.mp4'' @ ''/'' @ last (split CHR ''/'' ''/data/42_clip.mp4'')"
proof -
  let ?v = "\<lparr>video_id = ''9'', source = ''/data/42_clip.mp4'', format = no_formats\<rparr>"
  have a: "generateEncodedVideoFolderPath ?v 720 = ''/data/9/720p/''" by code_simp
  have b: "generateEncodedVideoFolderPath ?v 480 = ''/data/9/480p/''" by code_simp
  have ne: "(720::int) \<noteq> 480" by simp
  have sl: "CHR ''/'' \<in> set (source ?v)" by simp
  from generateEncodedVideoFolderPath_distinct [of ?v 720 720 480] ne sl
  have "generateEncodedVideoFolderPath ?v 720 \<noteq> generateEncodedVideoFolderPath ?v 480"
    and "source ?v = dirname (source ?v) @ ''/'' @ last (split CHR ''/'' (source ?v))"
    by blast+
  with a b show ?thesis by simp
qed

section \<open>The name of a video\<close>

text \<open>
  Claim C10, as amended. When the declared name and the extension of the uploaded file
  contain no slash, a video whose source was produced by \<^verbatim>\<open>generateVideoPath\<close> has the
  name made of the declared name, a dot and the extension; underscores in the declared
  name are kept.
\<close>

theorem getVideoName_roundtrip:
  assumes up: "files_source req = Some file"
    and nm: "body_name req = Some n"
    and n_ok: "CHR ''/'' \<notin> set n"
    and ext_ok: "CHR ''/'' \<notin> set (last (split CHR ''.'' (file_name file)))"
    and gen: "generateVideoPath now folder req = Inr p"
    and src: "source video = p"
  shows "getVideoName video = Some (n @ ''.'' @ last (split CHR ''.'' (file_name file)))"
proof -
  let ?ext = "last (split CHR ''.'' (file_name file))"
  let ?rest = "n @ ''.'' @ ?ext"
  let ?f = "show_nat now @ CHR ''_'' # ?rest"
  from gen up nm have p: "p = folder @ CHR ''/'' # ?f"
    by (simp add: generateVideoPath_def to_string_def pop_split)
  have "CHR ''/'' \<notin> set ?f"
    using n_ok ext_ok by (simp add: show_nat_no_slash)
  then have "basename p = Some ?f"
    unfolding p by (rule basename_append)
  then have popf: "pop (split CHR ''/'' (source video)) = Some ?f"
    by (simp add: src basename_def)
  have "split CHR ''_'' ?f = show_nat now # split CHR ''_'' ?rest"
    by (simp only: split_append split_no_sep [OF show_nat_no_underscore]) simp
  then have "join ''_'' (slice 1 None (split CHR ''_'' ?f)) = ?rest"
    by (simp only: slice_tl list.sel join_split)
  with popf show ?thesis
    by (simp add: getVideoName_def)
qed

text \<open>The theorem for the declared name \<^verbatim>\<open>my_best_video\<close>.\<close>

theorem getVideoName_roundtrip_witness:
  "generateVideoPath 7 ''/up'' \<lparr>files_source = Some \<lparr>file_name = ''clip.mp4''\<rparr>, body_name = Some ''my_best_video''\<rparr>
     = Inr ''/up/7_my_best_video.mp4''
   \<and> getVideoName \<lparr>video_id = ''9'', source = ''/up/7_my_best_video.mp4'', format = no_formats\<rparr>
       = Some ''my_best_video.mp4''"
proof -
  let ?req = "\<lparr>files_source = Some \<lparr>file_name = ''clip.mp4''\<rparr>, body_name = Some ''my_best_video''\<rparr>"
  let ?v = "\<lparr>video_id = ''9'', source = ''/up/7_my_best_video.mp4'', format = no_formats\<rparr>"
  have gen: "generateVideoPath 7 ''/up'' ?req = Inr ''/up/7_my_best_video.mp4''" by code_simp
  have n_ok: "CHR ''/'' \<notin> set ''my_best_video''" by simp
  have ext_ok: "CHR ''/'' \<notin> set (last (split CHR ''.'' (file_name \<lparr>file_name = ''clip.mp4''\<rparr>)))" by code_simp
  have e: "last (split CHR ''.'' (file_name \<lparr>file_name = ''clip.mp4''\<rparr>)) = ''mp4''" by code_simp
  have "getVideoName ?v = Some (''my_best_video'' @ ''.'' @ last (split CHR ''.'' (file_name \<lparr>file_name = ''clip.mp4''\<rparr>)))"
    by (rule getVideoName_roundtrip [OF _ _ n_ok ext_ok gen]) simp_all
  with gen show ?thesis unfolding e by simp
qed

text \<open>
  The claim as first stated fails for a declared name with a slash: for \<^verbatim>\<open>a/b\<close> the last
  segment of the source is \<^verbatim>\<open>b.mp4\<close>, which has no underscore, and the name is empty.
\<close>

theorem getVideoName_roundtrip_counterexample:
  "generateVideoPath 7 ''/up'' \<lparr>files_source = Some \<lparr>file_name = ''clip.mp4''\<rparr>, body_name = Some ''a/b''\<rparr>
     = Inr ''/up/7_a/b.mp4''
   \<and> getVideoName \<lparr>video_id = ''9'', source = ''/up/7_a/b.mp4'', format = no_formats\<rparr> \<noteq> Some ''a/b.mp4''"
  by code_simp

section \<open>The two versions of the query\<close>

text \<open>
  Both versions of \<^verbatim>\<open>getVideos\<close> build the same filter: a pattern match on the source
  when the name is not empty, equality on the owner when it is not zero, a lower bound on
  the duration when it is not zero. The earlier version passes the limit \<open>perPage\<close> and
  the offset \<open>perPage * (page - 1)\<close>. The later version passes the limit \<open>perPage\<close>, or 5
  when \<open>perPage\<close> is zero, and the offset \<open>perPage\<close>, or \<open>5 * (page - 1)\<close> when \<open>perPage\<close> is
  zero.
\<close>

lemma getVideos_queries:
  "query_where (getVideos_v2 flds) = query_where (getVideos_v1 flds)
   \<and> source_iLike (query_where (getVideos_v1 flds)) =
        (if name flds = [] then None else Some (''%'' @ name flds @ ''%''))
   \<and> user_eq (query_where (getVideos_v1 flds)) = (if user flds = 0 then None else Some (user flds))
   \<and> duration_gt (query_where (getVideos_v1 flds)) =
        (if duration flds = 0 then None else Some (duration flds))
   \<and> query_limit (getVideos_v1 flds) = perPage flds
   \<and> query_offset (getVideos_v1 flds) = perPage flds * (page flds - 1)
   \<and> query_limit (getVideos_v2 flds) = (if perPage flds = 0 then 5 else perPage flds)
   \<and> query_offset (getVideos_v2 flds) = (if perPage flds = 0 then 5 * (page flds - 1) else perPage flds)"
  by (simp add: getVideos_v1_def getVideos_v2_def build_filter_def or_number_def)

text \<open>
  Claim C4 at a failing input. For page 3 with 10 records per page the earlier version
  skips 20 records and the later version skips 10; for page 1 the earlier version skips
  none and the later version skips 10. The limit and the filter are the same.
\<close>

theorem getVideos_offset_slip:
  "query_offset (getVideos_v1 \<lparr>name = ''clip'', user = 4, duration = 0, page = 3, perPage = 10\<rparr>) = 20
   \<and> query_offset (getVideos_v2 \<lparr>name = ''clip'', user = 4, duration = 0, page = 3, perPage = 10\<rparr>) = 10
   \<and> query_offset (getVideos_v1 \<lparr>name = ''clip'', user = 4, duration = 0, page = 1, perPage = 10\<rparr>) = 0
   \<and> query_offset (getVideos_v2 \<lparr>name = ''clip'', user = 4, duration = 0, page = 1, perPage = 10\<rparr>) = 10
   \<and> query_limit (getVideos_v2 \<lparr>name = ''clip'', user = 4, duration = 0, page = 3, perPage = 10\<rparr>)
       = query_limit (getVideos_v1 \<lparr>name = ''clip'', user = 4, duration = 0, page = 3, perPage = 10\<rparr>)
   \<and> query_where (getVideos_v2 \<lparr>name = ''clip'', user = 4, duration = 0, page = 3, perPage = 10\<rparr>)
       = query_where (getVideos_v1 \<lparr>name = ''clip'', user = 4, duration = 0, page = 3, perPage = 10\<rparr>)"
  by (simp add: getVideos_v1_def getVideos_v2_def or_number_def)

section \<open>The outcome of an encoding\<close>

lemma on_event_settled: "p \<noteq> Pending \<Longrightarrow> fst (on_event (p, l) e) = p"
  by (cases e) (simp_all add: settle_def)

lemma on_event_progress: "is_progress e \<Longrightarrow> fst (on_event (p, l) e) = p"
  by (cases e) simp_all

lemma settled_stays: "p \<noteq> Pending \<Longrightarrow> fst (foldl on_event (p, l) es) = p"
proof (induction es arbitrary: l)
  case Nil
  show ?case by simp
next
  case (Cons e es)
  obtain l' where "on_event (p, l) e = (p, l')"
    using on_event_settled [OF Cons.prems, of l e] by (cases "on_event (p, l) e") simp
  with Cons show ?case by simp
qed

lemma progress_keeps: "\<forall>e\<in>set es. is_progress e \<Longrightarrow> fst (foldl on_event (p, l) es) = p"
proof (induction es arbitrary: l)
  case Nil
  show ?case by simp
next
  case (Cons e es)
  then have "is_progress e" by simp
  then obtain l' where "on_event (p, l) e = (p, l')"
    using on_event_progress [of e p l] by (cases "on_event (p, l) e") simp
  with Cons show ?case by simp
qed

lemma first_signal_decides:
  assumes "\<forall>e\<in>set pre. is_progress e"
  shows "fst (foldl on_event (Pending, l) (pre @ End # post)) = Resolved"
    and "fst (foldl on_event (Pending, l) (pre @ Error err # post)) = Rejected err"
proof -
  obtain l' where pre: "foldl on_event (Pending, l) pre = (Pending, l')"
    using progress_keeps [OF assms, of Pending l]
    by (cases "foldl on_event (Pending, l) pre") simp
  show "fst (foldl on_event (Pending, l) (pre @ End # post)) = Resolved"
    by (simp add: pre settle_def settled_stays)
  show "fst (foldl on_event (Pending, l) (pre @ Error err # post)) = Rejected err"
    by (simp add: pre settle_def settled_stays)
qed

lemma encodeVideo_result:
  "fst (snd (encodeVideo videoPath outputPath resolution events)) =
     await (fst (foldl on_event (Pending, []) events))"
  by (simp add: encodeVideo_def split_beta)

lemma encodeVideo_ended:
  assumes "\<forall>e\<in>set pre. is_progress e"
  shows "fst (snd (encodeVideo videoPath outputPath resolution (pre @ End # post))) = Some (Inr ())"
proof -
  have "fst (foldl on_event (Pending, []) (pre @ End # post)) = Resolved"
    using assms by (rule first_signal_decides(1))
  then show ?thesis
    by (simp only: encodeVideo_result) (simp add: await_def)
qed

lemma encodeVideo_failed:
  assumes "\<forall>e\<in>set pre. is_progress e"
  shows "fst (snd (encodeVideo videoPath outputPath resolution (pre @ Error err # post)))
           = Some (Inl (EngineError err))"
proof -
  have "fst (foldl on_event (Pending, []) (pre @ Error err # post)) = Rejected err"
    using assms by (rule first_signal_decides(2))
  then show ?thesis
    by (simp only: encodeVideo_result) (simp add: await_def)
qed

lemma signal_cases:
  obtains (silent) "\<forall>e\<in>set events. is_progress e"
  | (ended) pre post where "events = pre @ End # post" and "\<forall>e\<in>set pre. is_progress e"
  | (failed) pre err post where "events = pre @ Error err # post" and "\<forall>e\<in>set pre. is_progress e"
proof (cases "\<forall>e\<in>set events. is_progress e")
  case True
  then show ?thesis by (rule silent)
next
  case False
  then have "\<exists>e\<in>set events. \<not> is_progress e" by simp
  then obtain pre x post where ev: "events = pre @ x # post" and x: "\<not> is_progress x"
    and pre: "\<forall>e\<in>set pre. \<not> \<not> is_progress e"
    by (auto dest!: split_list_first_prop)
  from pre have pre': "\<forall>e\<in>set pre. is_progress e" by simp
  show ?thesis
  proof (cases x)
    case (Progress percent)
    with x show ?thesis by simp
  next
    case End
    with ev pre' show ?thesis by (auto intro: ended)
  next
    case (Error err)
    with ev pre' show ?thesis by (auto intro: failed)
  qed
qed

text \<open>
  Claim C9. The size given to the engine is \<^verbatim>\<open>?x\<close> followed by the resolution. The promise
  of \<^verbatim>\<open>encodeVideo\<close> stays pending exactly while the engine has emitted progress events
  only; it is fulfilled exactly when the first event that is not a progress event is
  \<^verbatim>\<open>end\<close>, and rejected with the engine's error exactly when that event is \<^verbatim>\<open>error\<close>. Removing
  every progress event from the stream leaves the outcome unchanged.
\<close>

theorem encodeVideo_outcome:
  "command_size (fst (encodeVideo videoPath outputPath resolution events)) =
      ''?x'' @ show_int (resolution_value resolution)
   \<and> (fst (snd (encodeVideo videoPath outputPath resolution events)) = None
        \<longleftrightarrow> (\<forall>e\<in>set events. is_progress e))
   \<and> (fst (snd (encodeVideo videoPath outputPath resolution events)) = Some (Inr ())
        \<longleftrightarrow> (\<exists>pre post. events = pre @ End # post \<and> (\<forall>e\<in>set pre. is_progress e)))
   \<and> (fst (snd (encodeVideo videoPath outputPath resolution events)) = Some (Inl failure)
        \<longleftrightarrow> (\<exists>pre err post. failure = EngineError err \<and> events = pre @ Error err # post
                \<and> (\<forall>e\<in>set pre. is_progress e)))
   \<and> fst (snd (encodeVideo videoPath outputPath resolution (filter (\<lambda>e. \<not> is_progress e) events)))
        = fst (snd (encodeVideo videoPath outputPath resolution events))"
proof -
  let ?r = "fst (snd (encodeVideo videoPath outputPath resolution events))"
  let ?f = "fst (snd (encodeVideo videoPath outputPath resolution (filter (\<lambda>e. \<not> is_progress e) events)))"
  have size: "command_size (fst (encodeVideo videoPath outputPath resolution events)) =
      ''?x'' @ show_int (resolution_value resolution)"
    by (simp add: encodeVideo_def encode_command_def split_beta)
  have rest: "(?r = None \<longleftrightarrow> (\<forall>e\<in>set events. is_progress e))
   \<and> (?r = Some (Inr ()) \<longleftrightarrow> (\<exists>pre post. events = pre @ End # post \<and> (\<forall>e\<in>set pre. is_progress e)))
   \<and> (?r = Some (Inl failure)
        \<longleftrightarrow> (\<exists>pre err post. failure = EngineError err \<and> events = pre @ Error err # post
                \<and> (\<forall>e\<in>set pre. is_progress e)))
   \<and> ?f = ?r"
  proof (cases events rule: signal_cases)
    case silent
    then have r: "?r = None"
      by (simp add: encodeVideo_result progress_keeps await_def)
    from silent have "filter (\<lambda>e. \<not> is_progress e) events = []" by simp
    then have f: "?f = None" by (simp add: encodeVideo_result await_def)
    from silent have no_end: "\<not> (\<exists>pre post. events = pre @ End # post \<and> (\<forall>e\<in>set pre. is_progress e))"
      by auto
    from silent have no_err: "\<not> (\<exists>pre err post. failure = EngineError err \<and> events = pre @ Error err # post
                \<and> (\<forall>e\<in>set pre. is_progress e))"
      by auto
    from r f silent no_end no_err show ?thesis by simp
  next
    case (ended pre post)
    then have r: "?r = Some (Inr ())"
      by (simp only: encodeVideo_ended)
    from ended have "filter (\<lambda>e. \<not> is_progress e) events = [] @ End # filter (\<lambda>e. \<not> is_progress e) post"
      by simp
    then have f: "?f = Some (Inr ())"
      by (simp add: encodeVideo_ended [of "[]", simplified])
    from ended have loud: "\<not> (\<forall>e\<in>set events. is_progress e)" by auto
    have no_err: "\<not> (\<exists>pre' err post'. failure = EngineError err \<and> events = pre' @ Error err # post'
                \<and> (\<forall>e\<in>set pre'. is_progress e))"
    proof
      assume "\<exists>pre' err post'. failure = EngineError err \<and> events = pre' @ Error err # post'
                \<and> (\<forall>e\<in>set pre'. is_progress e)"
      then obtain pre' err post' where "events = pre' @ Error err # post'" and "\<forall>e\<in>set pre'. is_progress e"
        by blast
      then have "?r = Some (Inl (EngineError err))"
        by (simp only: encodeVideo_failed)
      with r show False by simp
    qed
    from r f loud no_err ended show ?thesis by auto
  next
    case (failed pre err post)
    then have r: "?r = Some (Inl (EngineError err))"
      by (simp only: encodeVideo_failed)
    from failed have "filter (\<lambda>e. \<not> is_progress e) events = [] @ Error err # filter (\<lambda>e. \<not> is_progress e) post"
      by simp
    then have f: "?f = Some (Inl (EngineError err))"
      by (simp add: encodeVideo_failed [of "[]", simplified])
    from failed have loud: "\<not> (\<forall>e\<in>set events. is_progress e)" by auto
    have no_end: "\<not> (\<exists>pre' post'. events = pre' @ End # post' \<and> (\<forall>e\<in>set pre'. is_progress e))"
    proof
      assume "\<exists>pre' post'. events = pre' @ End # post' \<and> (\<forall>e\<in>set pre'. is_progress e)"
      then obtain pre' post' where "events = pre' @ End # post'" and "\<forall>e\<in>set pre'. is_progress e"
        by blast
      then have "?r = Some (Inr ())"
        by (simp only: encodeVideo_ended)
      with r show False by simp
    qed
    have iff: "(\<exists>pre' err' post'. failure = EngineError err' \<and> events = pre' @ Error err' # post'
                \<and> (\<forall>e\<in>set pre'. is_progress e)) \<longleftrightarrow> failure = EngineError err"
    proof
      assume "\<exists>pre' err' post'. failure = EngineError err' \<and> events = pre' @ Error err' # post'
                \<and> (\<forall>e\<in>set pre'. is_progress e)"
      then obtain pre' err' post' where fl: "failure = EngineError err'"
        and "events = pre' @ Error err' # post'" and "\<forall>e\<in>set pre'. is_progress e"
        by blast
      then have "?r = Some (Inl (EngineError err'))"
        by (simp only: encodeVideo_failed)
      with r fl show "failure = EngineError err" by simp
    next
      assume "failure = EngineError err"
      with failed show "\<exists>pre' err' post'. failure = EngineError err' \<and> events = pre' @ Error err' # post'
                \<and> (\<forall>e\<in>set pre'. is_progress e)" by blast
    qed
    from r f loud no_end iff show ?thesis by auto
  qed
  from size rest show ?thesis by blast
qed

text \<open>The theorem for an encoding at 720 that reports progress twice and ends.\<close>

theorem encodeVideo_outcome_witness:
  "command_size (fst (encodeVideo ''/data/42_clip.mp4'' ''/data/9/720p/50_clip.mp4'' R720
       [Progress (7 / 2), Progress 60, End])) = ''?x720''
   \<and> fst (snd (encodeVideo ''/data/42_clip.mp4'' ''/data/9/720p/50_clip.mp4'' R720
       [Progress (7 / 2), Progress 60, End])) = Some (Inr ())
   \<and> fst (snd (encodeVideo ''/data/42_clip.mp4'' ''/data/9/720p/50_clip.mp4'' R720
       [End])) = Some (Inr ())"
proof -
  have sz: "''?x'' @ show_int (resolution_value R720) = ''?x720''" by code_simp
  have f: "filter (\<lambda>e. \<not> is_progress e) [Progress (7 / 2), Progress 60, End] = [End]" by simp
  have r: "fst (snd (encodeVideo ''/data/42_clip.mp4'' ''/data/9/720p/50_clip.mp4'' R720
       [Progress (7 / 2), Progress 60, End])) = Some (Inr ())" by code_simp
  from encodeVideo_outcome [of "''/data/42_clip.mp4''" "''/data/9/720p/50_clip.mp4''" R720
       "[Progress (7 / 2), Progress 60, End]"]
  show ?thesis unfolding sz f r by simp
qed

section \<open>Deleting a video\<close>

text \<open>
  \<^verbatim>\<open>deleteVideo\<close> starts the three removals whatever each of them answers, and throws
  nothing.
\<close>

lemma deleteVideo_attempts_all:
  "attempted (deleteVideo rm rmdir destroy video) =
     [Rm (source video), Rmdir (dirname (source video) @ ''/'' @ video_id video) True,
      Destroy (video_id video)]
   \<and> thrown (deleteVideo rm rmdir destroy video) = None"
  by (simp add: deleteVideo_def dirname_def Let_def)

text \<open>
  Claim C8 at a failing input: the primary file is missing and the record store rejects
  the deletion. The three removals are attempted and the error of \<^verbatim>\<open>fs.rm\<close> is logged, but
  the rejection of \<^verbatim>\<open>destroy\<close> is not logged: it is left as an unhandled rejection.
\<close>

theorem deleteVideo_destroy_failure:
  "attempted (deleteVideo (op_fail (FsError ''ENOENT'')) op_ok (op_fail (DbError ''connection lost''))
       \<lparr>video_id = ''9'', source = ''/data/42_clip.mp4'', format = no_formats\<rparr>)
     = [Rm ''/data/42_clip.mp4'', Rmdir ''/data/9'' True, Destroy ''9'']
   \<and> logged_errors (deleteVideo (op_fail (FsError ''ENOENT'')) op_ok (op_fail (DbError ''connection lost''))
       \<lparr>video_id = ''9'', source = ''/data/42_clip.mp4'', format = no_formats\<rparr>)
     = [FsError ''ENOENT'']
   \<and> unhandled_rejections (deleteVideo (op_fail (FsError ''ENOENT'')) op_ok (op_fail (DbError ''connection lost''))
       \<lparr>video_id = ''9'', source = ''/data/42_clip.mp4'', format = no_formats\<rparr>)
     = [DbError ''connection lost'']"
  by code_simp

section \<open>Renaming a video\<close>

lemma rename_formats_skip:
  "\<not> truthy (format (mem w) k) \<Longrightarrow>
     rename_formats now rename newName (k # ks) w = rename_formats now rename newName ks w"
  by (auto simp: truthy_def split: option.splits)

lemma rename_formats_step:
  assumes "format (mem w) k = Some p" and "p \<noteq> []"
  shows "rename_formats now rename newName (k # ks) w =
     (case rename (disk w) p (updateVideoPath (now (ticks w)) p newName) of
        Inl e \<Rightarrow>
          (Some e, w\<lparr> mem := (mem w)\<lparr> format := (format (mem w))(k \<mapsto> updateVideoPath (now (ticks w)) p newName) \<rparr>,
                      ticks := ticks w + 1 \<rparr>)
      | Inr d \<Rightarrow>
          rename_formats now rename newName ks
            (w\<lparr> mem := (mem w)\<lparr> format := (format (mem w))(k \<mapsto> updateVideoPath (now (ticks w)) p newName) \<rparr>,
                ticks := ticks w + 1, disk := d,
                moved := moved w @ [(p, updateVideoPath (now (ticks w)) p newName)] \<rparr>))"
  using assms by (simp add: Let_def split: sum.splits)

lemma truthy_cases:
  obtains (falsy) "\<not> truthy v" | (path) p where "v = Some p" and "p \<noteq> []"
  by (cases v) (auto simp: truthy_def)

lemma rename_formats_keeps:
  "rename_formats now rename newName ks w = (r, w') \<Longrightarrow>
     saved w' = saved w \<and> source (mem w') = source (mem w) \<and> video_id (mem w') = video_id (mem w)"
proof (induction ks arbitrary: w)
  case Nil
  then show ?case by simp
next
  case (Cons k ks)
  show ?case
  proof (cases "format (mem w) k" rule: truthy_cases)
    case falsy
    from Cons.prems have "rename_formats now rename newName ks w = (r, w')"
      by (simp only: rename_formats_skip [OF falsy])
    then show ?thesis by (rule Cons.IH)
  next
    case (path p)
    show ?thesis
    proof (cases "rename (disk w) p (updateVideoPath (now (ticks w)) p newName)")
      case (Inl e)
      from Cons.prems show ?thesis
        by (simp only: rename_formats_step [OF path] Inl sum.case) auto
    next
      case (Inr d)
      from Cons.prems have "rename_formats now rename newName ks
            (w\<lparr> mem := (mem w)\<lparr> format := (format (mem w))(k \<mapsto> updateVideoPath (now (ticks w)) p newName) \<rparr>,
                ticks := ticks w + 1, disk := d,
                moved := moved w @ [(p, updateVideoPath (now (ticks w)) p newName)] \<rparr>) = (r, w')"
        by (simp only: rename_formats_step [OF path] Inr sum.case)
      from Cons.IH [OF this] show ?thesis by simp
    qed
  qed
qed

lemma rename_formats_success:
  assumes "distinct ks" and "rename_formats now rename newName ks w = (None, w')"
  shows "\<exists>ms. moved w' = moved w @ ms
     \<and> apply_moves rename (disk w) ms = Inr (disk w')
     \<and> length ms = length (filter (\<lambda>k. truthy (format (mem w) k)) ks)
     \<and> (\<forall>k\<in>set ks. truthy (format (mem w) k) \<longrightarrow>
          (\<exists>t p. format (mem w) k = Some p \<and> (p, updateVideoPath (now t) p newName) \<in> set ms
                 \<and> format (mem w') k = Some (updateVideoPath (now t) p newName)))
     \<and> (\<forall>k. k \<notin> set ks \<or> \<not> truthy (format (mem w) k) \<longrightarrow> format (mem w') k = format (mem w) k)
     \<and> source (mem w') = source (mem w)"
  using assms
proof (induction ks arbitrary: w)
  case Nil
  then show ?case by simp
next
  case (Cons k ks)
  from Cons.prems have dist: "distinct ks" and fresh: "k \<notin> set ks" by simp_all
  show ?case
  proof (cases "format (mem w) k" rule: truthy_cases)
    case falsy
    from Cons.prems(2) have "rename_formats now rename newName ks w = (None, w')"
      by (simp only: rename_formats_skip [OF falsy])
    from Cons.IH [OF dist this] obtain ms where ms: "moved w' = moved w @ ms"
      and replay: "apply_moves rename (disk w) ms = Inr (disk w')"
      and len: "length ms = length (filter (\<lambda>k. truthy (format (mem w) k)) ks)"
      and each: "\<forall>k\<in>set ks. truthy (format (mem w) k) \<longrightarrow>
          (\<exists>t p. format (mem w) k = Some p \<and> (p, updateVideoPath (now t) p newName) \<in> set ms
                 \<and> format (mem w') k = Some (updateVideoPath (now t) p newName))"
      and rest: "\<forall>k. k \<notin> set ks \<or> \<not> truthy (format (mem w) k) \<longrightarrow> format (mem w') k = format (mem w) k"
      and src: "source (mem w') = source (mem w)"
      by blast
    from len falsy have len': "length ms = length (filter (\<lambda>k. truthy (format (mem w) k)) (k # ks))"
      by simp
    from each falsy have each': "\<forall>j\<in>set (k # ks). truthy (format (mem w) j) \<longrightarrow>
          (\<exists>t p. format (mem w) j = Some p \<and> (p, updateVideoPath (now t) p newName) \<in> set ms
                 \<and> format (mem w') j = Some (updateVideoPath (now t) p newName))"
      by simp
    from rest have rest': "\<forall>j. j \<notin> set (k # ks) \<or> \<not> truthy (format (mem w) j) \<longrightarrow> format (mem w') j = format (mem w) j"
      by auto
    from ms replay len' each' rest' src show ?thesis by blast
  next
    case (path p)
    let ?new = "updateVideoPath (now (ticks w)) p newName"
    from path have tk: "truthy (format (mem w) k)" by (simp add: truthy_def)
    show ?thesis
    proof (cases "rename (disk w) p ?new")
      case (Inl e)
      from Cons.prems(2) show ?thesis
        by (simp only: rename_formats_step [OF path] Inl sum.case) simp
    next
      case (Inr d)
      let ?w2 = "w\<lparr> mem := (mem w)\<lparr> format := (format (mem w))(k \<mapsto> ?new) \<rparr>,
                ticks := ticks w + 1, disk := d, moved := moved w @ [(p, ?new)] \<rparr>"
      from Cons.prems(2) have "rename_formats now rename newName ks ?w2 = (None, w')"
        by (simp only: rename_formats_step [OF path] Inr sum.case)
      from Cons.IH [OF dist this] obtain ms where ms: "moved w' = moved ?w2 @ ms"
        and replay: "apply_moves rename (disk ?w2) ms = Inr (disk w')"
        and len: "length ms = length (filter (\<lambda>k. truthy (format (mem ?w2) k)) ks)"
        and each: "\<forall>k\<in>set ks. truthy (format (mem ?w2) k) \<longrightarrow>
            (\<exists>t p. format (mem ?w2) k = Some p \<and> (p, updateVideoPath (now t) p newName) \<in> set ms
                   \<and> format (mem w') k = Some (updateVideoPath (now t) p newName))"
        and rest: "\<forall>k. k \<notin> set ks \<or> \<not> truthy (format (mem ?w2) k) \<longrightarrow> format (mem w') k = format (mem ?w2) k"
        and src: "source (mem w') = source (mem ?w2)"
        by blast
      have same: "\<And>j. j \<in> set ks \<Longrightarrow> format (mem ?w2) j = format (mem w) j"
        using fresh by auto
      have ms': "moved w' = moved w @ ((p, ?new) # ms)" using ms by simp
      have replay': "apply_moves rename (disk w) ((p, ?new) # ms) = Inr (disk w')"
        using replay Inr by simp
      have "filter (\<lambda>k. truthy (format (mem ?w2) k)) ks = filter (\<lambda>k. truthy (format (mem w) k)) ks"
        by (rule filter_cong) (simp_all only: same)
      with len tk have len': "length ((p, ?new) # ms) = length (filter (\<lambda>k. truthy (format (mem w) k)) (k # ks))"
        by simp
      from rest fresh have atk: "format (mem w') k = Some ?new" by simp
      have each': "\<forall>j\<in>set (k # ks). truthy (format (mem w) j) \<longrightarrow>
          (\<exists>t q. format (mem w) j = Some q \<and> (q, updateVideoPath (now t) q newName) \<in> set ((p, ?new) # ms)
                 \<and> format (mem w') j = Some (updateVideoPath (now t) q newName))"
      proof (intro ballI impI)
        fix j assume j: "j \<in> set (k # ks)" and tj: "truthy (format (mem w) j)"
        show "\<exists>t q. format (mem w) j = Some q \<and> (q, updateVideoPath (now t) q newName) \<in> set ((p, ?new) # ms)
                 \<and> format (mem w') j = Some (updateVideoPath (now t) q newName)"
        proof (cases "j = k")
          case True
          with path atk show ?thesis by auto
        next
          case False
          with j have jk: "j \<in> set ks" by simp
          with tj same have "truthy (format (mem ?w2) j)" by simp
          with each jk obtain t q where "format (mem ?w2) j = Some q"
            and "(q, updateVideoPath (now t) q newName) \<in> set ms"
            and "format (mem w') j = Some (updateVideoPath (now t) q newName)"
            by blast
          with same [OF jk] show ?thesis by auto
        qed
      qed
      have rest': "\<forall>j. j \<notin> set (k # ks) \<or> \<not> truthy (format (mem w) j) \<longrightarrow> format (mem w') j = format (mem w) j"
      proof (intro allI impI)
        fix j assume a: "j \<notin> set (k # ks) \<or> \<not> truthy (format (mem w) j)"
        with tk have jk: "j \<noteq> k" by auto
        from a jk have "j \<notin> set ks \<or> \<not> truthy (format (mem ?w2) j)" by auto
        with rest have "format (mem w') j = format (mem ?w2) j" by blast
        with jk show "format (mem w') j = format (mem w) j" by simp
      qed
      from src have src': "source (mem w') = source (mem w)" by simp
      from ms' replay' len' each' rest' src' show ?thesis by blast
    qed
  qed
qed


lemma key_order_all: "k \<in> set key_order"
  by (cases k) (simp_all add: key_order_def)

lemma key_order_distinct: "distinct key_order"
  by (simp add: key_order_def)

lemma object_keys_distinct: "distinct (object_keys fmt)"
  by (simp add: object_keys_def key_order_distinct)

lemma truthy_in_object_keys: "truthy (fmt k) \<Longrightarrow> k \<in> set (object_keys fmt)"
  by (auto simp: object_keys_def key_order_all truthy_def split: option.splits)

lemma filter_truthy_object_keys:
  "filter (\<lambda>k. truthy (fmt k)) (object_keys fmt) = filter (\<lambda>k. truthy (fmt k)) key_order"
proof -
  have "\<And>k. (truthy (fmt k) \<and> fmt k \<noteq> None) = truthy (fmt k)"
    by (auto simp: truthy_def split: option.splits)
  then show ?thesis
    by (simp add: object_keys_def conj_commute)
qed

lemma updateVideoName_primary_fails:
  assumes "rename (disk w) (source (mem w)) (updateVideoPath (now (ticks w)) (source (mem w)) newName) = Inl e"
  shows "updateVideoName now rename save w newName =
     (Inl e, w\<lparr> mem := (mem w)\<lparr> source := updateVideoPath (now (ticks w + 1)) (source (mem w)) newName \<rparr>,
               ticks := ticks w + 2 \<rparr>)"
  using assms by (simp add: updateVideoName_def Let_def)

lemma updateVideoName_primary_moves:
  assumes "rename (disk w) (source (mem w)) (updateVideoPath (now (ticks w)) (source (mem w)) newName) = Inr d"
  shows "updateVideoName now rename save w newName =
     (case rename_formats now rename newName (object_keys (format (mem w)))
             (w\<lparr> mem := (mem w)\<lparr> source := updateVideoPath (now (ticks w + 1)) (source (mem w)) newName \<rparr>,
                 ticks := ticks w + 2, disk := d,
                 moved := moved w @ [(source (mem w), updateVideoPath (now (ticks w)) (source (mem w)) newName)] \<rparr>) of
        (Some e, w2) \<Rightarrow> (Inl e, w2)
      | (None, w2) \<Rightarrow>
          (case save (mem w2) of
             Some e \<Rightarrow> (Inl e, w2)
           | None \<Rightarrow> (Inr (mem w2), w2\<lparr> saved := saved w2 @ [mem w2] \<rparr>)))"
  using assms by (simp add: updateVideoName_def Let_def)



lemma updateVideoName_success:
  assumes "updateVideoName now rename save w newName = (Inr v, w')"
  shows "\<exists>ms. moved w' = moved w @ (source (mem w), updateVideoPath (now (ticks w)) (source (mem w)) newName) # ms
     \<and> apply_moves rename (disk w)
          ((source (mem w), updateVideoPath (now (ticks w)) (source (mem w)) newName) # ms) = Inr (disk w')
     \<and> length ms = length (filter (\<lambda>k. truthy (format (mem w) k)) key_order)
     \<and> (\<forall>k. truthy (format (mem w) k) \<longrightarrow>
          (\<exists>t p. format (mem w) k = Some p \<and> (p, updateVideoPath (now t) p newName) \<in> set ms
                 \<and> format v k = Some (updateVideoPath (now t) p newName)))
     \<and> (\<forall>k. \<not> truthy (format (mem w) k) \<longrightarrow> format v k = format (mem w) k)
     \<and> save v = None
     \<and> saved w' = saved w @ [v]
     \<and> mem w' = v"
proof (cases "rename (disk w) (source (mem w)) (updateVideoPath (now (ticks w)) (source (mem w)) newName)")
  case (Inl e')
  from assms show ?thesis
    by (simp only: updateVideoName_primary_fails [where now = now and rename = rename and w = w and newName = newName, OF Inl]) simp
next
  case (Inr d)
  let ?first = "(source (mem w), updateVideoPath (now (ticks w)) (source (mem w)) newName)"
  let ?w1 = "w\<lparr> mem := (mem w)\<lparr> source := updateVideoPath (now (ticks w + 1)) (source (mem w)) newName \<rparr>,
                 ticks := ticks w + 2, disk := d, moved := moved w @ [?first] \<rparr>"
  obtain r w2 where loop: "rename_formats now rename newName (object_keys (format (mem w))) ?w1 = (r, w2)"
    by (cases "rename_formats now rename newName (object_keys (format (mem w))) ?w1") blast
  from assms have unfolded: "(case (r, w2) of
        (Some e, w2) \<Rightarrow> (Inl e, w2)
      | (None, w2) \<Rightarrow>
          (case save (mem w2) of
             Some e \<Rightarrow> (Inl e, w2)
           | None \<Rightarrow> (Inr (mem w2), w2\<lparr> saved := saved w2 @ [mem w2] \<rparr>))) = (Inr v, w')"
    by (simp only: updateVideoName_primary_moves [where now = now and rename = rename and w = w and newName = newName, OF Inr] loop)
  then have r: "r = None" and v: "v = mem w2" and w': "w' = w2\<lparr> saved := saved w2 @ [mem w2] \<rparr>"
    and sv: "save (mem w2) = None"
    by (auto split: option.splits)
  from loop r have loop': "rename_formats now rename newName (object_keys (format (mem w))) ?w1 = (None, w2)"
    by simp
  from rename_formats_keeps [OF loop'] have s2: "saved w2 = saved w" by simp
  from rename_formats_success [OF object_keys_distinct loop']
  obtain ms where ms: "moved w2 = moved ?w1 @ ms"
    and replay: "apply_moves rename (disk ?w1) ms = Inr (disk w2)"
    and len: "length ms = length (filter (\<lambda>k. truthy (format (mem ?w1) k)) (object_keys (format (mem w))))"
    and each: "\<forall>k\<in>set (object_keys (format (mem w))). truthy (format (mem ?w1) k) \<longrightarrow>
          (\<exists>t p. format (mem ?w1) k = Some p \<and> (p, updateVideoPath (now t) p newName) \<in> set ms
                 \<and> format (mem w2) k = Some (updateVideoPath (now t) p newName))"
    and rest: "\<forall>k. k \<notin> set (object_keys (format (mem w))) \<or> \<not> truthy (format (mem ?w1) k) \<longrightarrow>
          format (mem w2) k = format (mem ?w1) k"
    by blast
  have c1: "moved w' = moved w @ ?first # ms" using ms w' by simp
  have c2: "apply_moves rename (disk w) (?first # ms) = Inr (disk w')"
    using replay Inr w' by simp
  have c3: "length ms = length (filter (\<lambda>k. truthy (format (mem w) k)) key_order)"
    using len by (simp add: filter_truthy_object_keys)
  have c4: "\<forall>k. truthy (format (mem w) k) \<longrightarrow>
          (\<exists>t p. format (mem w) k = Some p \<and> (p, updateVideoPath (now t) p newName) \<in> set ms
                 \<and> format v k = Some (updateVideoPath (now t) p newName))"
  proof (intro allI impI)
    fix k assume tk: "truthy (format (mem w) k)"
    then have "k \<in> set (object_keys (format (mem w)))" by (rule truthy_in_object_keys)
    moreover from tk have "truthy (format (mem ?w1) k)" by simp
    ultimately obtain t p where "format (mem ?w1) k = Some p"
      and "(p, updateVideoPath (now t) p newName) \<in> set ms"
      and "format (mem w2) k = Some (updateVideoPath (now t) p newName)"
      using each by blast
    then show "\<exists>t p. format (mem w) k = Some p \<and> (p, updateVideoPath (now t) p newName) \<in> set ms
                 \<and> format v k = Some (updateVideoPath (now t) p newName)"
      using v by auto
  qed
  have c5: "\<forall>k. \<not> truthy (format (mem w) k) \<longrightarrow> format v k = format (mem w) k"
    using rest v by simp
  have c6: "save v = None" using sv v by simp
  have c7: "saved w' = saved w @ [v]" using s2 w' v by simp
  have c8: "mem w' = v" using w' v by simp
  from c1 c2 c3 c4 c5 c6 c7 c8 show ?thesis by blast
qed

text \<open>
  Claim C3. When \<^verbatim>\<open>updateVideoName\<close> returns the video, it has carried out the move of
  the primary file (from the old source to the path computed from the old source and the
  new name) followed by one move for each resolution whose entry in the format map holds
  a path, and nothing else: replaying exactly these moves with the file system's
  \<^verbatim>\<open>rename\<close> from the initial file system succeeds and gives the final file system. The
  move of an entry goes from the entry's current path to the path computed by
  \<^verbatim>\<open>updateVideoPath\<close> from that current path and the new name, and the entry of the returned
  video is the path the file was moved to. The entries of the other resolutions are
  unchanged.
\<close>

theorem updateVideoName_moves:
  assumes run: "updateVideoName now rename save w newName = (Inr v, w')"
  shows "\<exists>ms. moved w' = moved w @ (source (mem w), updateVideoPath (now (ticks w)) (source (mem w)) newName) # ms
     \<and> apply_moves rename (disk w)
          ((source (mem w), updateVideoPath (now (ticks w)) (source (mem w)) newName) # ms) = Inr (disk w')
     \<and> length ms = length (filter (\<lambda>k. truthy (format (mem w) k)) key_order)
     \<and> (\<forall>k. truthy (format (mem w) k) \<longrightarrow>
          (\<exists>t p. format (mem w) k = Some p \<and> (p, updateVideoPath (now t) p newName) \<in> set ms
                 \<and> format v k = Some (updateVideoPath (now t) p newName)))
     \<and> (\<forall>k. \<not> truthy (format (mem w) k) \<longrightarrow> format v k = format (mem w) k)"
proof -
  from updateVideoName_success [OF run] obtain ms where
    "moved w' = moved w @ (source (mem w), updateVideoPath (now (ticks w)) (source (mem w)) newName) # ms"
    and "apply_moves rename (disk w)
          ((source (mem w), updateVideoPath (now (ticks w)) (source (mem w)) newName) # ms) = Inr (disk w')"
    and "length ms = length (filter (\<lambda>k. truthy (format (mem w) k)) key_order)"
    and "\<forall>k. truthy (format (mem w) k) \<longrightarrow>
          (\<exists>t p. format (mem w) k = Some p \<and> (p, updateVideoPath (now t) p newName) \<in> set ms
                 \<and> format v k = Some (updateVideoPath (now t) p newName))"
    and "\<forall>k. \<not> truthy (format (mem w) k) \<longrightarrow> format v k = format (mem w) k"
    by blast
  then show ?thesis by blast
qed

text \<open>
  The theorem for the video with derived files at 720 and 480, renamed to \<^verbatim>\<open>holiday\<close>:
  three files are moved, and the disk holds the three files under their new paths.
\<close>

theorem updateVideoName_moves_witness:
  "length (moved (snd (updateVideoName example_clock rename_file save_ok example_world ''holiday''))) = 3
   \<and> apply_moves rename_file (disk example_world)
        (moved (snd (updateVideoName example_clock rename_file save_ok example_world ''holiday'')))
       = Inr (disk (snd (updateVideoName example_clock rename_file save_ok example_world ''holiday'')))
   \<and> moved (snd (updateVideoName example_clock rename_file save_ok example_world ''holiday'')) =
       [(''/data/42_clip.mp4'', ''/data/1000_holiday.mp4''),
        (''/data/9/480p/60_clip.mp4'', ''/data/9/480p/1002_holiday.mp4''),
        (''/data/9/720p/50_clip.mp4'', ''/data/9/720p/1003_holiday.mp4'')]
   \<and> disk (snd (updateVideoName example_clock rename_file save_ok example_world ''holiday'')) =
       [''/data/9/720p/1003_holiday.mp4'', ''/data/9/480p/1002_holiday.mp4'', ''/data/1000_holiday.mp4'']
   \<and> format (mem (snd (updateVideoName example_clock rename_file save_ok example_world ''holiday''))) R480
       = Some ''/data/9/480p/1002_holiday.mp4''
   \<and> format (mem (snd (updateVideoName example_clock rename_file save_ok example_world ''holiday''))) R720
       = Some ''/data/9/720p/1003_holiday.mp4''
   \<and> format (mem (snd (updateVideoName example_clock rename_file save_ok example_world ''holiday''))) R1080
       = None"
proof -
  let ?run = "updateVideoName example_clock rename_file save_ok example_world ''holiday''"
  have "\<not> isl (fst ?run)" by code_simp
  then obtain v where "fst ?run = Inr v" by (cases "fst ?run") simp_all
  then have run: "?run = (Inr v, snd ?run)" by (metis prod.collapse)
  have present: "length (filter (\<lambda>k. truthy (format (mem example_world) k)) key_order) = 2"
    by code_simp
  have before: "moved example_world = []" by code_simp
  from updateVideoName_moves [where now = example_clock and rename = rename_file and save = save_ok
      and w = example_world and newName = "''holiday''" and v = v and w' = "snd ?run", OF run]
  obtain first ms where "moved (snd ?run) = moved example_world @ first # ms"
    and "apply_moves rename_file (disk example_world) (first # ms) = Inr (disk (snd ?run))"
    and "length ms = length (filter (\<lambda>k. truthy (format (mem example_world) k)) key_order)"
    by blast
  then have count: "length (moved (snd ?run)) = 3"
    and replay: "apply_moves rename_file (disk example_world) (moved (snd ?run)) = Inr (disk (snd ?run))"
    by (simp_all add: present before)
  have moves: "moved (snd ?run) =
       [(''/data/42_clip.mp4'', ''/data/1000_holiday.mp4''),
        (''/data/9/480p/60_clip.mp4'', ''/data/9/480p/1002_holiday.mp4''),
        (''/data/9/720p/50_clip.mp4'', ''/data/9/720p/1003_holiday.mp4'')]"
    by code_simp
  have files: "disk (snd ?run) =
       [''/data/9/720p/1003_holiday.mp4'', ''/data/9/480p/1002_holiday.mp4'', ''/data/1000_holiday.mp4'']"
    by code_simp
  have f480: "format (mem (snd ?run)) R480 = Some ''/data/9/480p/1002_holiday.mp4''" by code_simp
  have f720: "format (mem (snd ?run)) R720 = Some ''/data/9/720p/1003_holiday.mp4''" by code_simp
  have f1080: "format (mem (snd ?run)) R1080 = None" by code_simp
  from count replay moves files f480 f720 f1080 show ?thesis by blast
qed




end
